theory Spec2Isabelle
  imports Main "HOL-Library.AList"
begin

section \<open>Python primitives used by the pipeline\<close>

text \<open>
  Python's slice \<^verbatim>\<open>xs[i:]\<close> for an arbitrary integer \<open>i\<close>: a negative start counts
  from the end and is clamped at the front, a start beyond the end gives the empty list.
  The source always writes \<^verbatim>\<open>xs[-n:]\<close>, which is \<open>py_slice_from (- n) xs\<close>; note that
  \<^verbatim>\<open>xs[-0:]\<close> is \<^verbatim>\<open>xs[0:]\<close>, the whole list.
\<close>

definition py_slice_from :: "int \<Rightarrow> 'a list \<Rightarrow> 'a list" where
  "py_slice_from i xs =
     (let n = int (length xs);
          start = (if i < 0 then max 0 (n + i) else min i n)
      in drop (nat start) xs)"

text \<open>
  \<^verbatim>\<open>str.lower()\<close> on ASCII text: only \<open>A\<close>..\<open>Z\<close> change. Python folds every cased
  letter of Unicode, and a few of them to more than one character; a string here is a
  list of bytes, so \<open>lower\<close> agrees with the code on ASCII text only, and on other text
  the search of the code may find matches that this one misses. The facts below that
  evaluate a search do so on ASCII text.
\<close>

definition lower_char :: "char \<Rightarrow> char" where
  "lower_char c =
     (let n = (of_char c :: nat) in if 65 \<le> n \<and> n \<le> 90 then char_of (n + 32) else c)"

definition lower :: "string \<Rightarrow> string" where
  "lower s = map lower_char s"

text \<open>\<^verbatim>\<open>s.startswith(p)\<close>, \<^verbatim>\<open>s.endswith(p)\<close> and the substring test \<^verbatim>\<open>q in s\<close>.\<close>

definition startswith :: "string \<Rightarrow> string \<Rightarrow> bool" where
  "startswith s p = (take (length p) s = p)"

definition endswith :: "string \<Rightarrow> string \<Rightarrow> bool" where
  "endswith s p = (length p \<le> length s \<and> drop (length s - length p) s = p)"

fun str_in :: "string \<Rightarrow> string \<Rightarrow> bool" where
  "str_in q [] = (q = [])"
| "str_in q (c # cs) = (startswith (c # cs) q \<or> str_in q cs)"

text \<open>\<^verbatim>\<open>sep.join(parts)\<close>.\<close>

fun join :: "string \<Rightarrow> string list \<Rightarrow> string" where
  "join sep [] = []"
| "join sep [x] = x"
| "join sep (x # y # ys) = x @ sep @ join sep (y # ys)"

definition newline :: string where
  "newline = [CHR 0x0A]"

section \<open>Data model of \<^verbatim>\<open>rag_pipeline.py\<close>\<close>

text \<open>One entry of \<^verbatim>\<open>self.memory\<close>: the dict built in \<^verbatim>\<open>_add_to_memory\<close>.\<close>

record exchange =
  timestamp :: string
  question :: string
  response :: string
  sources :: "string list"
  exchange_id :: int

text \<open>A langchain \<^verbatim>\<open>Document\<close>: text and a metadata dict.\<close>

record document =
  page_content :: string
  metadata :: "(string \<times> string) list"

text \<open>An uploaded file: its name and its bytes.\<close>

record upload_file =
  filename :: string
  file_bytes :: string

text \<open>
  The chain object stored in \<^verbatim>\<open>self.rag_chain\<close>. \<^verbatim>\<open>_build_chain\<close> creates the
  retriever from the vector store of that moment, so the chain carries that store.
\<close>

datatype 'v runnable = RagChain 'v

text \<open>The mutable attributes of \<^verbatim>\<open>RAGPipeline\<close>; \<open>None\<close> is Python's \<^verbatim>\<open>None\<close>.\<close>

record 'v pipeline =
  vectorstore :: "'v option"
  rag_chain :: "'v runnable option"
  documents_loaded :: bool
  memory :: "exchange list"
  max_memory :: int

text \<open>
  The third-party services the pipeline calls. Each one that can raise returns the
  exception's message on the left. They are parameters of the model: loaders for PDF and
  text files, the plain read with undecodable bytes ignored, the text splitter, the
  construction of the FAISS store, its retriever (\<open>k = 4\<close>), and the composite
  \<^verbatim>\<open>prompt | llm | StrOutputParser()\<close> applied to context, chat history and question.
\<close>

record 'v services =
  PyPDFLoader_load :: "string \<Rightarrow> string + document list"
  TextLoader_load :: "string \<Rightarrow> string + document list"
  read_file :: "string \<Rightarrow> string + string"
  split_documents :: "document list \<Rightarrow> document list"
  FAISS_from_documents :: "document list \<Rightarrow> string + 'v"
  retrieve :: "'v \<Rightarrow> string \<Rightarrow> string + document list"
  llm_answer :: "string \<Rightarrow> string \<Rightarrow> string \<Rightarrow> string + string"

text \<open>Exceptions that leave a method of the pipeline.\<close>

datatype py_error = ValueError string | RaisedException string

fun str_of_error :: "py_error \<Rightarrow> string" where
  "str_of_error (ValueError m) = m"
| "str_of_error (RaisedException m) = m"

text \<open>The dict returned by \<^verbatim>\<open>query\<close> and the one returned by \<^verbatim>\<open>ingest_documents\<close>.\<close>

record query_result =
  res_response :: string
  res_sources :: "string list"
  num_sources :: int
  memory_length :: int
  success :: bool

record ingest_result =
  processed_files :: "string list"
  total_chunks :: int
  errors :: "string list"
  ingest_success :: bool

text \<open>The state set up by \<^verbatim>\<open>__init__\<close>.\<close>

definition RAGPipeline_init :: "'v pipeline" where
  "RAGPipeline_init =
     \<lparr>vectorstore = None, rag_chain = None, documents_loaded = False,
      memory = [], max_memory = 20\<rparr>"

section \<open>Conversation memory\<close>

text \<open>
  \<^verbatim>\<open>_add_to_memory\<close>: append the exchange, its id being the length of the log before
  the append plus one, then trim. The timestamp read from the clock is the argument \<open>now\<close>.
\<close>

definition add_to_memory ::
  "string \<Rightarrow> string \<Rightarrow> string \<Rightarrow> string list \<Rightarrow> 'v pipeline \<Rightarrow> 'v pipeline" where
  "add_to_memory now q r srcs s =
     (let mem = memory s @
            [\<lparr>timestamp = now, question = q, response = r, sources = srcs,
              exchange_id = int (length (memory s)) + 1\<rparr>]
      in if int (length mem) > max_memory s
         then s\<lparr>memory := py_slice_from (- max_memory s) mem\<rparr>
         else s\<lparr>memory := mem\<rparr>)"

definition get_memory :: "'v pipeline \<Rightarrow> exchange list" where
  "get_memory s = memory s"

definition get_recent_memory :: "int \<Rightarrow> 'v pipeline \<Rightarrow> exchange list" where
  "get_recent_memory n s = (if memory s \<noteq> [] then py_slice_from (- n) (memory s) else [])"

definition clear_memory :: "'v pipeline \<Rightarrow> 'v pipeline" where
  "clear_memory s = s\<lparr>memory := []\<rparr>"

text \<open>The \<^verbatim>\<open>for\<close> loop of \<^verbatim>\<open>search_memory\<close>, with \<open>results\<close> as accumulator.\<close>

fun search_loop :: "string \<Rightarrow> exchange list \<Rightarrow> exchange list \<Rightarrow> exchange list" where
  "search_loop query_lower [] results = results"
| "search_loop query_lower (ex # rest) results =
     search_loop query_lower rest
       (if str_in query_lower (lower (question ex)) \<or> str_in query_lower (lower (response ex))
        then results @ [ex] else results)"

definition search_memory :: "string \<Rightarrow> int \<Rightarrow> 'v pipeline \<Rightarrow> exchange list" where
  "search_memory query limit s =
     (if memory s = [] then []
      else py_slice_from (- limit) (search_loop (lower query) (memory s) []))"

definition set_memory_length :: "int \<Rightarrow> 'v pipeline \<Rightarrow> 'v pipeline" where
  "set_memory_length len s =
     (let s1 = s\<lparr>max_memory := max 1 len\<rparr>
      in if int (length (memory s1)) > max_memory s1
         then s1\<lparr>memory := py_slice_from (- max_memory s1) (memory s1)\<rparr>
         else s1)"

section \<open>The RAG chain\<close>

definition metadata_get :: "document \<Rightarrow> string \<Rightarrow> string \<Rightarrow> string" where
  "metadata_get doc k dflt = (case map_of (metadata doc) k of None \<Rightarrow> dflt | Some v \<Rightarrow> v)"

definition format_docs :: "document list \<Rightarrow> string" where
  "format_docs docs =
     join (newline @ newline)
       (map (\<lambda>doc. ''['' @ metadata_get doc ''filename'' ''Unknown'' @ '']'' @ newline
                    @ page_content doc) docs)"

definition format_memory :: "'v pipeline \<Rightarrow> string" where
  "format_memory s =
     (if memory s = [] then ''No previous conversation.''
      else let recent = py_slice_from (- 5) (memory s)
           in join newline
                (map (\<lambda>ex. ''Q: '' @ question ex @ newline @ ''A: '' @ take 100 (response ex)
                            @ ''...'' @ newline) recent))"

text \<open>
  \<^verbatim>\<open>list(set(...))\<close>: the distinct file names. Python leaves their order open (it
  depends on the hash seed of the process); \<open>remdups\<close> has the same elements, each once,
  in one fixed order. Nothing below depends on the order of two or more sources.
\<close>

definition get_sources :: "document list \<Rightarrow> string list" where
  "get_sources docs = remdups (map (\<lambda>doc. metadata_get doc ''filename'' ''Unknown'') docs)"

text \<open>
  \<^verbatim>\<open>self.rag_chain.invoke(question)\<close>. With no chain the attribute access on
  \<^verbatim>\<open>None\<close> raises; otherwise retrieval, then the answer from context, formatted memory
  (read when the chain runs) and question. The result is the exception's message or the
  pair of response and sources.
\<close>

definition NoneType_invoke_message :: string where
  "NoneType_invoke_message =
     [CHR 0x27] @ ''NoneType'' @ [CHR 0x27] @ '' object has no attribute ''
       @ [CHR 0x27] @ ''invoke'' @ [CHR 0x27]"

definition rag_chain_invoke ::
  "'v services \<Rightarrow> 'v pipeline \<Rightarrow> string \<Rightarrow> string + (string \<times> string list)" where
  "rag_chain_invoke env s q =
     (case rag_chain s of
        None \<Rightarrow> Inl NoneType_invoke_message
      | Some (RagChain v) \<Rightarrow>
          (case retrieve env v q of
             Inl e \<Rightarrow> Inl e
           | Inr docs \<Rightarrow>
               (case llm_answer env (format_docs docs) (format_memory s) q of
                  Inl e \<Rightarrow> Inl e
                | Inr resp \<Rightarrow> Inr (resp, get_sources docs))))"

section \<open>Query\<close>

text \<open>
  Every method returns the state it leaves behind together with its result, also when
  it raises: an exception does not undo the assignments made before it.
\<close>

definition query ::
  "'v services \<Rightarrow> string \<Rightarrow> string \<Rightarrow> 'v pipeline \<Rightarrow> (py_error + query_result) \<times> 'v pipeline" where
  "query env now q s =
     (if \<not> documents_loaded s then (Inl (ValueError ''No documents loaded''), s)
      else case rag_chain_invoke env s q of
          Inr (resp, srcs) \<Rightarrow>
            (let s' = add_to_memory now q resp srcs s
             in (Inr \<lparr>res_response = resp, res_sources = srcs,
                      num_sources = int (length srcs),
                      memory_length = int (length (memory s')), success = True\<rparr>, s'))
        | Inl e \<Rightarrow>
            (let error_msg = ''Error: '' @ e;
                 s' = add_to_memory now q error_msg [] s
             in (Inr \<lparr>res_response = error_msg, res_sources = [],
                      num_sources = 0,
                      memory_length = int (length (memory s')), success = False\<rparr>, s')))"

text \<open>
  \<^verbatim>\<open>query_with_memory_context\<close>. Without memory the log is set aside, the query runs on
  an empty log, and the saved log is put back; when the query raises, the assignment
  that restores the log is not reached.
\<close>

definition query_with_memory_context ::
  "'v services \<Rightarrow> string \<Rightarrow> string \<Rightarrow> bool \<Rightarrow> 'v pipeline \<Rightarrow>
     (py_error + query_result) \<times> 'v pipeline" where
  "query_with_memory_context env now q use_memory s =
     (if \<not> use_memory then
        (let old_memory = memory s;
             s1 = s\<lparr>memory := []\<rparr>
         in case query env now q s1 of
              (Inl e, s2) \<Rightarrow> (Inl e, s2)
            | (Inr result, s2) \<Rightarrow> (Inr result, s2\<lparr>memory := old_memory\<rparr>))
      else query env now q s)"

section \<open>Ingestion and reset\<close>

text \<open>
  The body of the \<^verbatim>\<open>try\<close> for one file: choose the loader by the file name's ending,
  then stamp each document with the file name.
\<close>

definition load_file :: "'v services \<Rightarrow> upload_file \<Rightarrow> string + document list" where
  "load_file env f =
     (case (if endswith (filename f) ''.pdf'' then PyPDFLoader_load env (file_bytes f)
            else if endswith (filename f) ''.txt'' \<or> endswith (filename f) ''.md''
            then TextLoader_load env (file_bytes f)
            else (case read_file env (file_bytes f) of
                    Inl e \<Rightarrow> Inl e
                  | Inr content \<Rightarrow>
                      Inr [\<lparr>page_content = content,
                            metadata = [(''source'', filename f)]\<rparr>])) of
        Inl e \<Rightarrow> Inl e
      | Inr docs \<Rightarrow>
          Inr (map (\<lambda>doc. doc\<lparr>metadata :=
                     AList.update ''filename'' (filename f) (metadata doc)\<rparr>) docs))"

text \<open>The loop over the files, carrying \<open>documents\<close>, \<open>processed_files\<close> and \<open>errors\<close>.\<close>

fun ingest_loop ::
  "'v services \<Rightarrow> upload_file list \<Rightarrow> document list \<times> string list \<times> string list \<Rightarrow>
     document list \<times> string list \<times> string list" where
  "ingest_loop env [] acc = acc"
| "ingest_loop env (f # fs) (documents, processed, errs) =
     ingest_loop env fs
       (case load_file env f of
          Inr docs \<Rightarrow> (documents @ docs, processed @ [filename f], errs)
        | Inl e \<Rightarrow> (documents, processed, errs @ [''Error with '' @ filename f @ '': '' @ e]))"

text \<open>\<^verbatim>\<open>_build_chain\<close>: needs the vector store for its retriever.\<close>

definition build_chain :: "'v pipeline \<Rightarrow> py_error + 'v pipeline" where
  "build_chain s =
     (case vectorstore s of
        None \<Rightarrow> Inl (RaisedException
                 ([CHR 0x27] @ ''NoneType'' @ [CHR 0x27] @ '' object has no attribute ''
                   @ [CHR 0x27] @ ''as_retriever'' @ [CHR 0x27]))
      | Some v \<Rightarrow> Inr (s\<lparr>rag_chain := Some (RagChain v)\<rparr>))"

definition ingest_documents ::
  "'v services \<Rightarrow> upload_file list \<Rightarrow> 'v pipeline \<Rightarrow> (py_error + ingest_result) \<times> 'v pipeline" where
  "ingest_documents env files s =
     (case ingest_loop env files ([], [], []) of
        (documents, processed, errs) \<Rightarrow>
          if documents = [] then (Inl (ValueError ''No documents processed''), s)
          else
            (let chunks = split_documents env documents
             in case FAISS_from_documents env chunks of
                  Inl e \<Rightarrow> (Inl (RaisedException e), s)
                | Inr v \<Rightarrow>
                    (let s1 = s\<lparr>vectorstore := Some v\<rparr>
                     in case build_chain s1 of
                          Inl e \<Rightarrow> (Inl e, s1)
                        | Inr s2 \<Rightarrow>
                            (Inr \<lparr>processed_files = processed,
                                  total_chunks = int (length chunks),
                                  errors = errs, ingest_success = True\<rparr>,
                             s2\<lparr>documents_loaded := True\<rparr>))))"

definition reset :: "'v pipeline \<Rightarrow> 'v pipeline" where
  "reset s = s\<lparr>vectorstore := None, rag_chain := None, documents_loaded := False, memory := []\<rparr>"

section \<open>The chat endpoint of \<^verbatim>\<open>main.py\<close>\<close>

record chat_response =
  cr_response :: string
  cr_sources :: "string list"
  cr_num_sources :: int
  cr_memory_length :: int

text \<open>What the handler does: raise an \<^verbatim>\<open>HTTPException\<close> or return the response model.\<close>

datatype http_outcome = HTTPException int string | Returned chat_response

fun status_code :: "http_outcome \<Rightarrow> int" where
  "status_code (HTTPException code detail) = code"
| "status_code (Returned r) = 200"

definition success_class :: "http_outcome \<Rightarrow> bool" where
  "success_class r = (200 \<le> status_code r \<and> status_code r < 300)"

definition chat ::
  "'v services \<Rightarrow> string \<Rightarrow> string \<Rightarrow> 'v pipeline \<Rightarrow> http_outcome \<times> 'v pipeline" where
  "chat env now message s =
     (if \<not> documents_loaded s
      then (HTTPException 400 ''No documents loaded. Please upload and process files first.'', s)
      else case query env now message s of
          (Inl e, s') \<Rightarrow> (HTTPException 500 (''Error processing chat: '' @ str_of_error e), s')
        | (Inr result, s') \<Rightarrow>
            if \<not> success result then (HTTPException 500 (res_response result), s')
            else (Returned \<lparr>cr_response = res_response result,
                            cr_sources = res_sources result,
                            cr_num_sources = num_sources result,
                            cr_memory_length = memory_length result\<rparr>, s'))"

section \<open>Sequences of operations\<close>

text \<open>The entry that \<^verbatim>\<open>_add_to_memory\<close> creates in state \<open>s\<close>.\<close>

definition new_exchange ::
  "string \<Rightarrow> string \<Rightarrow> string \<Rightarrow> string list \<Rightarrow> 'v pipeline \<Rightarrow> exchange" where
  "new_exchange now q r srcs s =
     \<lparr>timestamp = now, question = q, response = r, sources = srcs,
      exchange_id = int (length (memory s)) + 1\<rparr>"

text \<open>Memory operations, and a run of them that also lists the entries appended, in order.\<close>

datatype mem_op = Append string string string "string list" | SetCapacity int

fun run_mem_ops :: "mem_op list \<Rightarrow> 'v pipeline \<Rightarrow> 'v pipeline \<times> exchange list" where
  "run_mem_ops [] s = (s, [])"
| "run_mem_ops (Append now q r srcs # ops) s =
     (case run_mem_ops ops (add_to_memory now q r srcs s) of
        (s', appended) \<Rightarrow> (s', new_exchange now q r srcs s # appended))"
| "run_mem_ops (SetCapacity n # ops) s = run_mem_ops ops (set_memory_length n s)"

text \<open>A run of appends only, as in the 25-exchange scenario.\<close>

fun append_all :: "(string \<times> string \<times> string \<times> string list) list \<Rightarrow> 'v pipeline \<Rightarrow> 'v pipeline" where
  "append_all [] s = s"
| "append_all ((now, q, r, srcs) # rest) s = append_all rest (add_to_memory now q r srcs s)"

text \<open>The public operations of the pipeline, and a run of them.\<close>

datatype pipeline_op =
    Ingest "upload_file list"
  | Query string string
  | QueryWithMemoryContext string string bool
  | ClearMemory
  | SetMemoryLength int
  | Reset

fun pipeline_step :: "'v services \<Rightarrow> pipeline_op \<Rightarrow> 'v pipeline \<Rightarrow> 'v pipeline" where
  "pipeline_step env (Ingest files) s = snd (ingest_documents env files s)"
| "pipeline_step env (Query now q) s = snd (query env now q s)"
| "pipeline_step env (QueryWithMemoryContext now q use_memory) s =
     snd (query_with_memory_context env now q use_memory s)"
| "pipeline_step env ClearMemory s = clear_memory s"
| "pipeline_step env (SetMemoryLength n) s = set_memory_length n s"
| "pipeline_step env Reset s = reset s"

fun run_ops :: "'v services \<Rightarrow> pipeline_op list \<Rightarrow> 'v pipeline \<Rightarrow> 'v pipeline" where
  "run_ops env [] s = s"
| "run_ops env (op # ops) s = run_ops env ops (pipeline_step env op s)"

text \<open>The consistency condition on the attributes.\<close>

definition consistent :: "'v pipeline \<Rightarrow> bool" where
  "consistent s = (documents_loaded s \<longrightarrow> vectorstore s \<noteq> None \<and> rag_chain s \<noteq> None)"


section \<open>Derived notions and example inputs\<close>

text \<open>The test of the loop in \<^verbatim>\<open>search_memory\<close>, for a query not yet lowered.\<close>

definition exchange_matches :: "string \<Rightarrow> exchange \<Rightarrow> bool" where
  "exchange_matches q ex =
     (str_in (lower q) (lower (question ex)) \<or> str_in (lower q) (lower (response ex)))"

text \<open>The documents one file contributes to the batch: none when its decoding raises.\<close>

definition loaded_documents :: "'v services \<Rightarrow> upload_file \<Rightarrow> document list" where
  "loaded_documents env f = (case load_file env f of Inl e \<Rightarrow> [] | Inr docs \<Rightarrow> docs)"

text \<open>
  Concrete services for the examples: the PDF loader rejects its input, the store is a
  unit value, retrieval returns one chunk of \<^verbatim>\<open>notes.txt\<close>, and the generator answers
  \<^verbatim>\<open>Paris\<close>. In \<open>failing_services\<close> the generator raises instead.
\<close>

definition notes_doc :: document where
  "notes_doc =
     \<lparr>page_content = ''Paris is the capital of France.'',
      metadata = [(''source'', ''notes.txt''), (''filename'', ''notes.txt'')]\<rparr>"

definition notes_file :: upload_file where
  "notes_file = \<lparr>filename = ''notes.txt'', file_bytes = ''Paris is the capital of France.''\<rparr>"

definition demo_services :: "unit services" where
  "demo_services =
     \<lparr>PyPDFLoader_load = (\<lambda>b. Inl ''invalid pdf header''),
      TextLoader_load = (\<lambda>b. Inr [\<lparr>page_content = b, metadata = [(''source'', ''tmp'')]\<rparr>]),
      read_file = (\<lambda>b. Inr b),
      split_documents = (\<lambda>docs. docs),
      FAISS_from_documents = (\<lambda>chunks. Inr ()),
      retrieve = (\<lambda>v q. Inr [notes_doc]),
      llm_answer = (\<lambda>context chat_history q. Inr ''Paris'')\<rparr>"

definition failing_services :: "unit services" where
  "failing_services =
     demo_services\<lparr>llm_answer := (\<lambda>context chat_history q. Inl ''quota exceeded'')\<rparr>"

text \<open>A loaded pipeline with one exchange in its log.\<close>

definition demo_loaded :: "unit pipeline" where
  "demo_loaded =
     \<lparr>vectorstore = Some (), rag_chain = Some (RagChain ()), documents_loaded = True,
      memory = [\<lparr>timestamp = ''t0'', question = ''hello'', response = ''hi'', sources = [],
                 exchange_id = 1\<rparr>],
      max_memory = 20\<rparr>"

text \<open>
  What the specification says a run of memory operations leaves, written without the
  code: the content of each appended exchange (everything but its id), the capacity
  (\<^verbatim>\<open>set_capacity(n)\<close> sets it to \<open>max 1 n\<close>, an append keeps it), and the number of
  entries kept (an append adds one and trims to the capacity, a capacity change trims
  to the new capacity).
\<close>

definition exchange_content :: "exchange \<Rightarrow> string \<times> string \<times> string \<times> string list" where
  "exchange_content e = (timestamp e, question e, response e, sources e)"

fun appended_contents :: "mem_op list \<Rightarrow> (string \<times> string \<times> string \<times> string list) list" where
  "appended_contents [] = []"
| "appended_contents (Append now q r srcs # ops) = (now, q, r, srcs) # appended_contents ops"
| "appended_contents (SetCapacity n # ops) = appended_contents ops"

fun final_capacity :: "mem_op list \<Rightarrow> int \<Rightarrow> int" where
  "final_capacity [] cap = cap"
| "final_capacity (Append now q r srcs # ops) cap = final_capacity ops cap"
| "final_capacity (SetCapacity n # ops) cap = final_capacity ops (max 1 n)"

fun retained_count :: "mem_op list \<Rightarrow> nat \<Rightarrow> int \<Rightarrow> nat" where
  "retained_count [] len cap = len"
| "retained_count (Append now q r srcs # ops) len cap =
     retained_count ops (min (Suc len) (nat cap)) cap"
| "retained_count (SetCapacity n # ops) len cap =
     retained_count ops (min len (nat (max 1 n))) (max 1 n)"

fun is_append :: "mem_op \<Rightarrow> bool" where
  "is_append (Append now q r srcs) = True"
| "is_append (SetCapacity n) = False"

text \<open>Ten appends, for the scenario of a capacity change on a log of ten entries.\<close>

definition ten_appends :: "mem_op list" where
  "ten_appends =
     [Append ''t1'' ''q1'' ''r1'' [], Append ''t2'' ''q2'' ''r2'' [],
      Append ''t3'' ''q3'' ''r3'' [], Append ''t4'' ''q4'' ''r4'' [],
      Append ''t5'' ''q5'' ''r5'' [], Append ''t6'' ''q6'' ''r6'' [],
      Append ''t7'' ''q7'' ''r7'' [], Append ''t8'' ''q8'' ''r8'' [],
      Append ''t9'' ''q9'' ''r9'' [], Append ''t10'' ''q10'' ''r10'' []]"

section \<open>Facts about slicing and trimming\<close>

lemma py_slice_from_neg:
  "0 < m \<Longrightarrow> py_slice_from (- m) xs = drop (length xs - nat m) xs"
  by (auto simp: py_slice_from_def Let_def max_def nat_diff_distrib'
      intro: arg_cong2[where f=drop])

lemma py_slice_from_zero: "py_slice_from 0 xs = xs"
  by (simp add: py_slice_from_def)

lemma memory_add_to_memory:
  "1 \<le> max_memory s \<Longrightarrow>
   memory (add_to_memory now q r srcs s) =
     drop (Suc (length (memory s)) - nat (max_memory s))
       (memory s @ [new_exchange now q r srcs s])"
  by (auto simp: add_to_memory_def Let_def new_exchange_def py_slice_from_neg)

lemma max_memory_add_to_memory: "max_memory (add_to_memory now q r srcs s) = max_memory s"
  by (simp add: add_to_memory_def Let_def)

lemma max_memory_set_memory_length: "max_memory (set_memory_length n s) = max 1 n"
  by (simp add: set_memory_length_def Let_def)

lemma memory_set_memory_length:
  "memory (set_memory_length n s) = drop (length (memory s) - nat (max 1 n)) (memory s)"
  by (auto simp: set_memory_length_def Let_def py_slice_from_neg)

lemma length_add_to_memory:
  "1 \<le> max_memory s \<Longrightarrow>
   int (length (memory (add_to_memory now q r srcs s))) =
     min (int (length (memory s)) + 1) (max_memory s)"
  by (auto simp: memory_add_to_memory)

lemma length_set_memory_length:
  "int (length (memory (set_memory_length n s))) = min (int (length (memory s))) (max 1 n)"
  by (auto simp: memory_set_memory_length)

section \<open>Exchange ids\<close>

text \<open>
  Once the log is full, the length before an append is always the capacity, so every
  further exchange gets the id capacity plus one.
\<close>

lemma add_to_memory_id_at_capacity:
  assumes "1 \<le> max_memory s" and "int (length (memory s)) = max_memory s"
  shows "exchange_id (last (memory (add_to_memory now q r srcs s))) = max_memory s + 1"
    and "int (length (memory (add_to_memory now q r srcs s))) = max_memory s"
  using assms by (simp_all add: memory_add_to_memory new_exchange_def)

text \<open>
  Claim C1, evaluated on the code: 25 appends to a fresh pipeline (capacity 20) leave 20
  entries, but their ids are 6 to 20 followed by 21 five times. The ids of successive
  exchanges do not strictly increase, and the retained ids are not 6 to 25.
\<close>

theorem ids_after_25_appends:
  "length (get_memory (append_all (replicate 25 (''t'', ''q'', ''r'', [])) RAGPipeline_init)) = 20 \<and>
   map exchange_id
     (get_memory (append_all (replicate 25 (''t'', ''q'', ''r'', [])) RAGPipeline_init)) =
     [6, 7, 8, 9, 10, 11, 12, 13, 14, 15, 16, 17, 18, 19, 20, 21, 21, 21, 21, 21]"
  by code_simp

section \<open>The memory bound\<close>

lemma drop_suffix_step:
  assumes "k1 \<le> length base"
  shows "drop k (drop k1 base @ tr) = drop (k + k1) (base @ tr)"
proof -
  have "drop k1 base @ tr = drop k1 (base @ tr)"
    using assms by simp
  then show ?thesis
    by (simp only: drop_drop)
qed

lemma drop_exact: "ys = drop k xs \<Longrightarrow> ys = drop (length xs - length ys) xs"
  by (cases "k \<le> length xs") auto

text \<open>
  Along a run of appends and capacity changes the bound holds, and the log is what
  remains of the starting log followed by the appended entries after dropping a prefix.
\<close>

lemma run_mem_ops_suffix:
  "1 \<le> max_memory s \<Longrightarrow> int (length (memory s)) \<le> max_memory s \<Longrightarrow>
   1 \<le> max_memory (fst (run_mem_ops ops s)) \<and>
   int (length (memory (fst (run_mem_ops ops s)))) \<le> max_memory (fst (run_mem_ops ops s)) \<and>
   (\<exists>k. memory (fst (run_mem_ops ops s)) = drop k (memory s @ snd (run_mem_ops ops s)))"
proof (induction ops arbitrary: s)
  case Nil
  then show ?case by (auto intro: exI[of _ 0])
next
  case (Cons op ops)
  show ?case
  proof (cases op)
    case (Append now q r srcs)
    let ?s1 = "add_to_memory now q r srcs s"
    let ?e = "new_exchange now q r srcs s"
    let ?k1 = "Suc (length (memory s)) - nat (max_memory s)"
    have m1: "memory ?s1 = drop ?k1 (memory s @ [?e])"
      using Cons.prems(1) by (rule memory_add_to_memory)
    have inv1: "1 \<le> max_memory ?s1" "int (length (memory ?s1)) \<le> max_memory ?s1"
      using Cons.prems length_add_to_memory[of s now q r srcs]
      by (simp_all add: max_memory_add_to_memory)
    from Cons.IH[OF inv1] obtain k where
      a: "1 \<le> max_memory (fst (run_mem_ops ops ?s1))"
      and b: "int (length (memory (fst (run_mem_ops ops ?s1))))
                \<le> max_memory (fst (run_mem_ops ops ?s1))"
      and c: "memory (fst (run_mem_ops ops ?s1)) = drop k (memory ?s1 @ snd (run_mem_ops ops ?s1))"
      by blast
    have "?k1 \<le> length (memory s @ [?e])"
      by simp
    from drop_suffix_step[OF this, of k "snd (run_mem_ops ops ?s1)"] c
    have "memory (fst (run_mem_ops ops ?s1))
            = drop (k + ?k1) (memory s @ ?e # snd (run_mem_ops ops ?s1))"
      unfolding m1 by (simp only: append_assoc append_Cons append_Nil)
    with a b show ?thesis
      unfolding Append by (auto simp: split_beta)
  next
    case (SetCapacity n)
    let ?s1 = "set_memory_length n s"
    let ?k1 = "length (memory s) - nat (max 1 n)"
    have m1: "memory ?s1 = drop ?k1 (memory s)"
      by (rule memory_set_memory_length)
    have inv1: "1 \<le> max_memory ?s1" "int (length (memory ?s1)) \<le> max_memory ?s1"
      using length_set_memory_length[of n s]
      by (simp_all add: max_memory_set_memory_length)
    from Cons.IH[OF inv1] obtain k where
      a: "1 \<le> max_memory (fst (run_mem_ops ops ?s1))"
      and b: "int (length (memory (fst (run_mem_ops ops ?s1))))
                \<le> max_memory (fst (run_mem_ops ops ?s1))"
      and c: "memory (fst (run_mem_ops ops ?s1)) = drop k (memory ?s1 @ snd (run_mem_ops ops ?s1))"
      by blast
    have "?k1 \<le> length (memory s)"
      by simp
    from drop_suffix_step[OF this, of k "snd (run_mem_ops ops ?s1)"] c
    have "memory (fst (run_mem_ops ops ?s1))
            = drop (k + ?k1) (memory s @ snd (run_mem_ops ops ?s1))"
      unfolding m1 by simp
    with a b show ?thesis
      unfolding SetCapacity by auto
  qed
qed

text \<open>The exact length after each operation, and along a run.\<close>

lemma nat_length_add_to_memory:
  "1 \<le> max_memory s \<Longrightarrow>
   length (memory (add_to_memory now q r srcs s)) =
     min (Suc (length (memory s))) (nat (max_memory s))"
  by (auto simp: memory_add_to_memory)

lemma nat_length_set_memory_length:
  "length (memory (set_memory_length n s)) = min (length (memory s)) (nat (max 1 n))"
  by (auto simp: memory_set_memory_length)

lemma run_mem_ops_count:
  "1 \<le> max_memory s \<Longrightarrow>
   max_memory (fst (run_mem_ops ops s)) = final_capacity ops (max_memory s) \<and>
   length (memory (fst (run_mem_ops ops s))) =
     retained_count ops (length (memory s)) (max_memory s)"
proof (induction ops arbitrary: s)
  case Nil
  then show ?case by simp
next
  case (Cons op ops)
  show ?case
  proof (cases op)
    case (Append now q r srcs)
    have "1 \<le> max_memory (add_to_memory now q r srcs s)"
      using Cons.prems by (simp add: max_memory_add_to_memory)
    from Cons.IH[OF this] show ?thesis
      unfolding Append
      by (simp add: split_beta max_memory_add_to_memory
          nat_length_add_to_memory[OF Cons.prems])
  next
    case (SetCapacity n)
    have "1 \<le> max_memory (set_memory_length n s)"
      by (simp add: max_memory_set_memory_length)
    from Cons.IH[OF this] show ?thesis
      unfolding SetCapacity
      by (simp add: max_memory_set_memory_length nat_length_set_memory_length)
  qed
qed

text \<open>The entries listed by a run are the exchanges of its appends, in order.\<close>

lemma exchange_content_new_exchange:
  "exchange_content (new_exchange now q r srcs s) = (now, q, r, srcs)"
  by (simp add: exchange_content_def new_exchange_def)

lemma run_mem_ops_contents:
  "map exchange_content (snd (run_mem_ops ops s)) = appended_contents ops"
proof (induction ops arbitrary: s)
  case Nil
  show ?case by simp
next
  case (Cons op ops)
  show ?case
    by (cases op) (simp_all add: Cons.IH split_beta exchange_content_new_exchange)
qed

text \<open>A run of appends alone fills the log up to the capacity and no further.\<close>

lemma retained_count_appends:
  "list_all is_append ops \<Longrightarrow> len \<le> nat cap \<Longrightarrow>
   retained_count ops len cap = min (len + length ops) (nat cap)"
proof (induction ops arbitrary: len)
  case Nil
  then show ?case by simp
next
  case (Cons op ops)
  then show ?case
    by (cases op) (auto simp: min_def)
qed

text \<open>
  Claim C3: from a state with a positive capacity that holds at most that many entries
  (as the fresh pipeline does), after any sequence of appends and capacity changes
  \<^item> the log is no longer than the capacity;
  \<^item> the capacity is the one the specification gives: \<open>max 1 n\<close> of the last
    \<^verbatim>\<open>set_capacity(n)\<close>, or the starting one;
  \<^item> the number of entries is exactly the one the specification gives: each append
    adds one entry and trims to the capacity, each capacity change trims to the new
    capacity, at once;
  \<^item> the entries appended are those of the appends, in order;
  \<^item> the log is exactly the last that many entries, in order, of the starting log
    followed by everything appended since, so the oldest are the ones discarded.
\<close>

theorem memory_bound_invariant:
  assumes "1 \<le> max_memory s" and "int (length (memory s)) \<le> max_memory s"
  shows "int (length (memory (fst (run_mem_ops ops s)))) \<le> max_memory (fst (run_mem_ops ops s)) \<and>
         max_memory (fst (run_mem_ops ops s)) = final_capacity ops (max_memory s) \<and>
         length (memory (fst (run_mem_ops ops s))) =
           retained_count ops (length (memory s)) (max_memory s) \<and>
         map exchange_content (snd (run_mem_ops ops s)) = appended_contents ops \<and>
         memory (fst (run_mem_ops ops s)) =
           drop (length (memory s @ snd (run_mem_ops ops s))
                   - retained_count ops (length (memory s)) (max_memory s))
             (memory s @ snd (run_mem_ops ops s))"
proof -
  from run_mem_ops_suffix[OF assms, of ops] obtain k where
    b: "int (length (memory (fst (run_mem_ops ops s)))) \<le> max_memory (fst (run_mem_ops ops s))"
    and c: "memory (fst (run_mem_ops ops s)) = drop k (memory s @ snd (run_mem_ops ops s))"
    by blast
  from run_mem_ops_count[OF assms(1), of ops] have
    d: "max_memory (fst (run_mem_ops ops s)) = final_capacity ops (max_memory s)"
    and e: "length (memory (fst (run_mem_ops ops s))) =
              retained_count ops (length (memory s)) (max_memory s)"
    by simp_all
  have f: "memory (fst (run_mem_ops ops s)) =
           drop (length (memory s @ snd (run_mem_ops ops s))
                   - retained_count ops (length (memory s)) (max_memory s))
             (memory s @ snd (run_mem_ops ops s))"
    using drop_exact[OF c] unfolding e .
  from b d e f run_mem_ops_contents[of ops s] show ?thesis
    by (intro conjI)
qed

text \<open>
  The theorem at a fresh pipeline: ten appends, then the capacity set to 3. Three
  entries are kept, and they are the eighth, ninth and tenth exchange.
\<close>

theorem memory_bound_invariant_witness:
  "1 \<le> max_memory (RAGPipeline_init :: unit pipeline) \<and>
   int (length (memory (RAGPipeline_init :: unit pipeline)))
     \<le> max_memory (RAGPipeline_init :: unit pipeline) \<and>
   retained_count (ten_appends @ [SetCapacity 3]) 0 20 = 3 \<and>
   final_capacity (ten_appends @ [SetCapacity 3]) 20 = 3 \<and>
   max_memory (fst (run_mem_ops (ten_appends @ [SetCapacity 3])
      (RAGPipeline_init :: unit pipeline))) = 3 \<and>
   map question (memory (fst (run_mem_ops (ten_appends @ [SetCapacity 3])
      (RAGPipeline_init :: unit pipeline)))) = [''q8'', ''q9'', ''q10'']"
proof -
  have h1: "1 \<le> max_memory (RAGPipeline_init :: unit pipeline)"
    by (simp add: RAGPipeline_init_def)
  have h2: "int (length (memory (RAGPipeline_init :: unit pipeline)))
              \<le> max_memory (RAGPipeline_init :: unit pipeline)"
    by (simp add: RAGPipeline_init_def)
  have m0: "memory (RAGPipeline_init :: unit pipeline) = []"
    and c0: "max_memory (RAGPipeline_init :: unit pipeline) = 20"
    by (simp_all add: RAGPipeline_init_def)
  have rc: "retained_count (ten_appends @ [SetCapacity 3]) 0 20 = 3"
    by (simp add: ten_appends_def)
  have fc: "final_capacity (ten_appends @ [SetCapacity 3]) 20 = 3"
    by (simp add: ten_appends_def)
  have ap: "map question (snd (run_mem_ops (ten_appends @ [SetCapacity 3])
      (RAGPipeline_init :: unit pipeline))) =
      [''q1'', ''q2'', ''q3'', ''q4'', ''q5'', ''q6'', ''q7'', ''q8'', ''q9'', ''q10'']"
    by (simp add: ten_appends_def split_beta new_exchange_def)
  note t = memory_bound_invariant[OF h1 h2, of "ten_appends @ [SetCapacity 3]"]
  have cap: "max_memory (fst (run_mem_ops (ten_appends @ [SetCapacity 3])
      (RAGPipeline_init :: unit pipeline))) = 3"
    using t by (simp add: c0 fc)
  have len: "length (snd (run_mem_ops (ten_appends @ [SetCapacity 3])
      (RAGPipeline_init :: unit pipeline))) = 10"
    using arg_cong[OF ap, of length] by simp
  have "memory (fst (run_mem_ops (ten_appends @ [SetCapacity 3])
      (RAGPipeline_init :: unit pipeline))) =
      drop 7 (snd (run_mem_ops (ten_appends @ [SetCapacity 3])
        (RAGPipeline_init :: unit pipeline)))"
    using t by (simp add: m0 c0 rc len)
  then have "map question (memory (fst (run_mem_ops (ten_appends @ [SetCapacity 3])
      (RAGPipeline_init :: unit pipeline)))) =
      drop 7 (map question (snd (run_mem_ops (ten_appends @ [SetCapacity 3])
        (RAGPipeline_init :: unit pipeline))))"
    by (simp only: drop_map)
  then have "map question (memory (fst (run_mem_ops (ten_appends @ [SetCapacity 3])
      (RAGPipeline_init :: unit pipeline)))) = [''q8'', ''q9'', ''q10'']"
    unfolding ap by simp
  with h1 h2 rc fc cap show ?thesis
    by (intro conjI)
qed

section \<open>Recent entries\<close>

text \<open>For a positive \<open>n\<close> the result is the last \<open>min n len\<close> entries, in order.\<close>

lemma get_recent_memory_pos:
  "0 < n \<Longrightarrow> get_recent_memory n s = drop (length (memory s) - nat n) (memory s)"
  by (simp add: get_recent_memory_def py_slice_from_neg)

lemma length_get_recent_memory_pos:
  "0 < n \<Longrightarrow> int (length (get_recent_memory n s)) = min n (int (length (memory s)))"
  by (auto simp: get_recent_memory_pos)

lemma get_recent_memory_zero: "get_recent_memory 0 s = memory s"
  by (simp add: get_recent_memory_def py_slice_from_zero)

text \<open>
  Claim C5, evaluated on the code: on a log of three exchanges, \<^verbatim>\<open>get_recent_memory(0)\<close>
  returns all three and \<^verbatim>\<open>get_recent_memory(-1)\<close> returns the last two, where the claim
  says the empty sequence.
\<close>

theorem get_recent_nonpositive_not_empty:
  "map question (get_recent_memory 0
     (append_all [(''t1'', ''q1'', ''r1'', []), (''t2'', ''q2'', ''r2'', []),
                  (''t3'', ''q3'', ''r3'', [])] RAGPipeline_init))
     = [''q1'', ''q2'', ''q3''] \<and>
   map question (get_recent_memory (- 1)
     (append_all [(''t1'', ''q1'', ''r1'', []), (''t2'', ''q2'', ''r2'', []),
                  (''t3'', ''q3'', ''r3'', [])] RAGPipeline_init))
     = [''q2'', ''q3'']"
  by code_simp

section \<open>Search\<close>

lemma search_loop_filter:
  "search_loop (lower q) mem results = results @ filter (exchange_matches q) mem"
  by (induction mem arbitrary: results) (auto simp: exchange_matches_def)

text \<open>For a positive limit: the matching entries, in order, cut to the last \<open>limit\<close>.\<close>

lemma search_memory_pos:
  "0 < limit \<Longrightarrow>
   search_memory q limit s =
     drop (length (filter (exchange_matches q) (memory s)) - nat limit)
       (filter (exchange_matches q) (memory s))"
  by (simp add: search_memory_def search_loop_filter py_slice_from_neg)

lemma search_memory_zero: "search_memory q 0 s = filter (exchange_matches q) (memory s)"
  by (simp add: search_memory_def search_loop_filter py_slice_from_zero)

text \<open>
  Claim C8, evaluated on the code: with limit 0 the search for \<^verbatim>\<open>PARIS\<close> in a log of
  three exchanges returns both matching entries, where the claim allows at most
  \<open>limit\<close> entries, that is none.
\<close>

theorem search_limit_zero_returns_all:
  "map question (search_memory ''PARIS'' 0
     (append_all [(''t1'', ''Where is Paris?'', ''In France.'', []),
                  (''t2'', ''And Rome?'', ''In Italy.'', []),
                  (''t3'', ''Capital of France?'', ''paris.'', [])] RAGPipeline_init))
     = [''Where is Paris?'', ''Capital of France?'']"
  by code_simp

section \<open>Query before ingestion\<close>

text \<open>
  Claim C7: in a state where \<open>documents_loaded\<close> is false, \<^verbatim>\<open>query\<close> raises the
  \<^verbatim>\<open>ValueError\<close> "No documents loaded" and leaves the whole state, the memory log
  included, as it was.
\<close>

theorem query_not_ready:
  "\<not> documents_loaded s \<Longrightarrow> query env now q s = (Inl (ValueError ''No documents loaded''), s)"
  by (simp add: query_def)

theorem query_not_ready_witness:
  "\<not> documents_loaded (RAGPipeline_init :: unit pipeline) \<and>
   query demo_services ''t1'' ''What is the capital of France?'' RAGPipeline_init
     = (Inl (ValueError ''No documents loaded''), RAGPipeline_init)"
proof -
  have h: "\<not> documents_loaded (RAGPipeline_init :: unit pipeline)"
    by (simp add: RAGPipeline_init_def)
  from query_not_ready[OF h] h show ?thesis by simp
qed

section \<open>Query when generation fails\<close>

lemma add_to_memory_last:
  assumes "1 \<le> max_memory s"
  shows "memory (add_to_memory now q r srcs s) \<noteq> []"
    and "last (memory (add_to_memory now q r srcs s)) = new_exchange now q r srcs s"
    and "butlast (memory (add_to_memory now q r srcs s)) =
           drop (Suc (length (memory s)) - nat (max_memory s)) (memory s)"
proof -
  let ?k = "Suc (length (memory s)) - nat (max_memory s)"
  have k: "?k \<le> length (memory s)"
    using assms by auto
  have m: "memory (add_to_memory now q r srcs s) =
             drop ?k (memory s) @ [new_exchange now q r srcs s]"
    using k by (simp add: memory_add_to_memory[OF assms])
  show "memory (add_to_memory now q r srcs s) \<noteq> []"
    using m by simp
  show "last (memory (add_to_memory now q r srcs s)) = new_exchange now q r srcs s"
    using m by simp
  show "butlast (memory (add_to_memory now q r srcs s)) = drop ?k (memory s)"
    using m by simp
qed

text \<open>
  Claim C6: in a loaded state with a positive capacity, when the chain raises with
  message \<open>e\<close>, \<^verbatim>\<open>query\<close> returns normally. The record it returns has the response
  "Error: " followed by \<open>e\<close>, no sources, \<open>num_sources\<close> 0, \<open>success\<close> false and
  \<open>memory_length\<close> the length of the log after the append. The log is not empty, its
  last entry is the new exchange with that response and no sources, and the entries
  before it are the old log, trimmed at the front.
\<close>

theorem query_generation_failure:
  assumes "documents_loaded s" and "rag_chain_invoke env s q = Inl e" and "1 \<le> max_memory s"
  shows "query env now q s =
           (Inr \<lparr>res_response = ''Error: '' @ e, res_sources = [], num_sources = 0,
                 memory_length =
                   int (length (memory (add_to_memory now q (''Error: '' @ e) [] s))),
                 success = False\<rparr>,
            add_to_memory now q (''Error: '' @ e) [] s) \<and>
         memory (add_to_memory now q (''Error: '' @ e) [] s) \<noteq> [] \<and>
         last (memory (add_to_memory now q (''Error: '' @ e) [] s)) =
           \<lparr>timestamp = now, question = q, response = ''Error: '' @ e, sources = [],
            exchange_id = int (length (memory s)) + 1\<rparr> \<and>
         butlast (memory (add_to_memory now q (''Error: '' @ e) [] s)) =
           drop (Suc (length (memory s)) - nat (max_memory s)) (memory s)"
  using assms add_to_memory_last[OF assms(3), of now q "''Error: '' @ e" "[]"]
  by (simp add: query_def Let_def new_exchange_def)

theorem query_generation_failure_witness:
  "documents_loaded demo_loaded \<and>
   rag_chain_invoke failing_services demo_loaded ''Why?'' = Inl ''quota exceeded'' \<and>
   1 \<le> max_memory demo_loaded \<and>
   fst (query failing_services ''t1'' ''Why?'' demo_loaded) =
     Inr \<lparr>res_response = ''Error: quota exceeded'', res_sources = [], num_sources = 0,
          memory_length = 2, success = False\<rparr> \<and>
   map response (memory (snd (query failing_services ''t1'' ''Why?'' demo_loaded))) =
     [''hi'', ''Error: quota exceeded'']"
proof -
  have h1: "documents_loaded demo_loaded"
    by (simp add: demo_loaded_def)
  have h2: "rag_chain_invoke failing_services demo_loaded ''Why?'' = Inl ''quota exceeded''"
    by (simp add: rag_chain_invoke_def failing_services_def demo_services_def demo_loaded_def)
  have h3: "1 \<le> max_memory demo_loaded"
    by (simp add: demo_loaded_def)
  have m: "memory (add_to_memory ''t1'' ''Why?'' ''Error: quota exceeded'' [] demo_loaded) =
     [\<lparr>timestamp = ''t0'', question = ''hello'', response = ''hi'', sources = [],
       exchange_id = 1\<rparr>,
      \<lparr>timestamp = ''t1'', question = ''Why?'', response = ''Error: quota exceeded'',
       sources = [], exchange_id = 2\<rparr>]"
    by (simp add: add_to_memory_def demo_loaded_def Let_def)
  from query_generation_failure[OF h1 h2 h3, of "''t1''"] h1 h2 h3 m
  show ?thesis by auto
qed

section \<open>Query without memory\<close>

lemma query_loaded_state:
  "documents_loaded s \<Longrightarrow>
   \<exists>res r srcs. query env now q s = (Inr res, add_to_memory now q r srcs s)"
  by (auto simp: query_def Let_def split: sum.splits prod.splits)

lemma add_to_memory_restore:
  "(add_to_memory now q r srcs (s\<lparr>memory := []\<rparr>))\<lparr>memory := memory s\<rparr> = s"
  by (simp add: add_to_memory_def Let_def)

text \<open>
  Claim C2 as stated fails: on the loaded example pipeline, whose log has one entry,
  the call without memory leaves the log exactly as it was, so it has not grown by one.
\<close>

theorem query_without_memory_counterexample:
  "documents_loaded demo_loaded \<and>
   memory (snd (query_with_memory_context demo_services ''t1'' ''Why?'' False demo_loaded))
     = memory demo_loaded \<and>
   length (memory (snd (query_with_memory_context demo_services ''t1'' ''Why?'' False demo_loaded)))
     \<noteq> length (memory demo_loaded) + 1"
  by (simp add: query_with_memory_context_def query_def rag_chain_invoke_def demo_services_def
      demo_loaded_def add_to_memory_def Let_def)

text \<open>
  Claim C2, amended: in a loaded state, \<^verbatim>\<open>query_with_memory_context\<close> without memory
  returns what \<^verbatim>\<open>query\<close> returns on the same state with an empty log (whose formatted
  history is "No previous conversation."), and afterwards the state, the memory log
  included, is exactly the state before the call: the exchange is recorded only in the
  temporary log, which is discarded.
\<close>

theorem query_without_memory_restores_log:
  assumes "documents_loaded s"
  shows "query_with_memory_context env now q False s =
           (fst (query env now q (s\<lparr>memory := []\<rparr>)), s) \<and>
         format_memory (s\<lparr>memory := []\<rparr>) = ''No previous conversation.'' \<and>
         memory (snd (query_with_memory_context env now q False s)) = memory s"
proof -
  have "documents_loaded (s\<lparr>memory := []\<rparr>)"
    using assms by simp
  from query_loaded_state[OF this, of env now q] obtain res r srcs where
    q: "query env now q (s\<lparr>memory := []\<rparr>) =
          (Inr res, add_to_memory now q r srcs (s\<lparr>memory := []\<rparr>))"
    by blast
  have "query_with_memory_context env now q False s = (Inr res, s)"
    by (simp add: query_with_memory_context_def Let_def q add_to_memory_restore)
  then show ?thesis
    by (simp add: q format_memory_def)
qed

theorem query_without_memory_restores_log_witness:
  "documents_loaded demo_loaded \<and>
   query_with_memory_context demo_services ''t1'' ''What is the capital of France?'' False
       demo_loaded =
     (Inr \<lparr>res_response = ''Paris'', res_sources = [''notes.txt''], num_sources = 1,
           memory_length = 1, success = True\<rparr>, demo_loaded)"
proof -
  have h: "documents_loaded demo_loaded"
    by (simp add: demo_loaded_def)
  have q: "fst (query demo_services ''t1'' ''What is the capital of France?''
                 (demo_loaded\<lparr>memory := []\<rparr>))
     = Inr \<lparr>res_response = ''Paris'', res_sources = [''notes.txt''], num_sources = 1,
           memory_length = 1, success = True\<rparr>"
    by (simp add: query_def rag_chain_invoke_def demo_services_def demo_loaded_def
        get_sources_def metadata_get_def notes_doc_def add_to_memory_def Let_def)
  from query_without_memory_restores_log[OF h, of demo_services "''t1''"
      "''What is the capital of France?''"] h q
  show ?thesis by simp
qed

section \<open>The chat endpoint on a failed answer\<close>

text \<open>
  Claim C4 as stated fails: on the loaded example pipeline with a generator that raises,
  the query returns a record with \<open>success\<close> false, and the handler raises an
  \<^verbatim>\<open>HTTPException\<close> with status 500, which is not in the success class.
\<close>

theorem chat_failed_answer_counterexample:
  "documents_loaded demo_loaded \<and>
   fst (query failing_services ''t1'' ''Why?'' demo_loaded) =
     Inr \<lparr>res_response = ''Error: quota exceeded'', res_sources = [], num_sources = 0,
          memory_length = 2, success = False\<rparr> \<and>
   fst (chat failing_services ''t1'' ''Why?'' demo_loaded) =
     HTTPException 500 ''Error: quota exceeded'' \<and>
   \<not> success_class (fst (chat failing_services ''t1'' ''Why?'' demo_loaded))"
  by (simp add: chat_def query_def rag_chain_invoke_def failing_services_def demo_services_def
      demo_loaded_def add_to_memory_def Let_def success_class_def)

text \<open>
  Claim C4, amended: when documents are loaded and the query returns a record with
  \<open>success\<close> false, the chat handler raises an \<^verbatim>\<open>HTTPException\<close> with status 500 whose
  detail is the record's response text; the state is the one the query left, so the
  exchange stays recorded.
\<close>

theorem chat_failed_answer_is_500:
  assumes "documents_loaded s" and "query env now message s = (Inr result, s')"
    and "\<not> success result"
  shows "chat env now message s = (HTTPException 500 (res_response result), s') \<and>
         status_code (fst (chat env now message s)) = 500 \<and>
         \<not> success_class (fst (chat env now message s))"
  using assms by (simp add: chat_def success_class_def)

theorem chat_failed_answer_is_500_witness:
  "documents_loaded demo_loaded \<and>
   \<not> success \<lparr>res_response = ''Error: quota exceeded'', res_sources = [], num_sources = 0,
          memory_length = 2, success = False\<rparr> \<and>
   chat failing_services ''t1'' ''Why?'' demo_loaded =
     (HTTPException 500 ''Error: quota exceeded'',
      add_to_memory ''t1'' ''Why?'' ''Error: quota exceeded'' [] demo_loaded)"
proof -
  have h1: "documents_loaded demo_loaded"
    by (simp add: demo_loaded_def)
  have h2: "query failing_services ''t1'' ''Why?'' demo_loaded =
     (Inr \<lparr>res_response = ''Error: quota exceeded'', res_sources = [], num_sources = 0,
          memory_length = 2, success = False\<rparr>,
      add_to_memory ''t1'' ''Why?'' ''Error: quota exceeded'' [] demo_loaded)"
    by (simp add: query_def rag_chain_invoke_def failing_services_def demo_services_def
        demo_loaded_def add_to_memory_def Let_def)
  have h3: "\<not> success \<lparr>res_response = ''Error: quota exceeded'', res_sources = [],
          num_sources = 0, memory_length = 2, success = False\<rparr>"
    by simp
  from chat_failed_answer_is_500[OF h1 h2 h3] h1 h3 show ?thesis by simp
qed

section \<open>Ingestion of a batch without documents\<close>

lemma ingest_loop_documents:
  "fst (ingest_loop env files (documents, processed, errs)) =
     documents @ concat (map (loaded_documents env) files)"
  by (induction files arbitrary: documents processed errs)
     (auto simp: loaded_documents_def split: sum.splits)

text \<open>
  Claim C9: when every file of the batch either fails to decode or decodes to no
  document, \<^verbatim>\<open>ingest_documents\<close> raises the \<^verbatim>\<open>ValueError\<close> "No documents processed"
  and the state is unchanged: \<open>documents_loaded\<close>, the vector store, the chain and the
  memory log keep their values.
\<close>

theorem ingest_no_documents:
  assumes "\<forall>f \<in> set files. \<forall>docs. load_file env f = Inr docs \<longrightarrow> docs = []"
  shows "ingest_documents env files s = (Inl (ValueError ''No documents processed''), s)"
proof -
  have "\<forall>f \<in> set files. loaded_documents env f = []"
    using assms by (auto simp: loaded_documents_def split: sum.splits)
  then have "concat (map (loaded_documents env) files) = []"
    by simp
  then have "fst (ingest_loop env files ([], [], [])) = []"
    by (simp add: ingest_loop_documents)
  then show ?thesis
    by (auto simp: ingest_documents_def split: prod.splits)
qed

theorem ingest_no_documents_witness:
  "load_file demo_services \<lparr>filename = ''scan.pdf'', file_bytes = ''not a pdf''\<rparr>
     = Inl ''invalid pdf header'' \<and>
   ingest_documents demo_services [\<lparr>filename = ''scan.pdf'', file_bytes = ''not a pdf''\<rparr>]
       demo_loaded
     = (Inl (ValueError ''No documents processed''), demo_loaded)"
proof -
  have l: "load_file demo_services \<lparr>filename = ''scan.pdf'', file_bytes = ''not a pdf''\<rparr>
             = Inl ''invalid pdf header''"
    by (simp add: load_file_def endswith_def demo_services_def)
  have h: "\<forall>f \<in> set [\<lparr>filename = ''scan.pdf'', file_bytes = ''not a pdf''\<rparr>].
      \<forall>docs. load_file demo_services f = Inr docs \<longrightarrow> docs = []"
    by (simp add: l)
  from ingest_no_documents[OF h, of demo_loaded] l show ?thesis by blast
qed

section \<open>Consistency of the attributes\<close>

lemma consistent_add_to_memory:
  "consistent (add_to_memory now q r srcs s) = consistent s"
  by (simp add: consistent_def add_to_memory_def Let_def)

lemma consistent_memory_update: "consistent (s\<lparr>memory := m\<rparr>) = consistent s"
  by (simp add: consistent_def)

lemma consistent_query: "consistent s \<Longrightarrow> consistent (snd (query env now q s))"
  by (auto simp: query_def Let_def consistent_add_to_memory split: sum.splits prod.splits)

lemma consistent_query_with_memory_context:
  assumes "consistent s"
  shows "consistent (snd (query_with_memory_context env now q use_memory s))"
proof (cases use_memory)
  case True
  then show ?thesis
    using assms by (simp add: query_with_memory_context_def consistent_query)
next
  case False
  have "consistent (snd (query env now q (s\<lparr>memory := []\<rparr>)))"
    using assms by (intro consistent_query) (simp add: consistent_memory_update)
  then show ?thesis
    using False
    by (auto simp: query_with_memory_context_def Let_def consistent_memory_update
        split: prod.splits sum.splits)
qed

lemma consistent_ingest_documents:
  "consistent s \<Longrightarrow> consistent (snd (ingest_documents env files s))"
  by (auto simp: ingest_documents_def build_chain_def Let_def consistent_def
      split: prod.splits sum.splits)

lemma consistent_pipeline_step: "consistent s \<Longrightarrow> consistent (pipeline_step env op s)"
proof (cases op)
  case (Ingest files)
  assume "consistent s"
  then show ?thesis
    unfolding Ingest by (simp add: consistent_ingest_documents)
next
  case (Query now q)
  assume "consistent s"
  then show ?thesis
    unfolding Query by (simp add: consistent_query)
next
  case (QueryWithMemoryContext now q use_memory)
  assume "consistent s"
  then show ?thesis
    unfolding QueryWithMemoryContext by (simp add: consistent_query_with_memory_context)
next
  case ClearMemory
  assume "consistent s"
  then show ?thesis
    unfolding ClearMemory by (simp add: clear_memory_def consistent_def)
next
  case (SetMemoryLength n)
  assume "consistent s"
  then show ?thesis
    unfolding SetMemoryLength by (simp add: set_memory_length_def Let_def consistent_def)
next
  case Reset
  show ?thesis
    unfolding Reset by (simp add: reset_def consistent_def)
qed

lemma consistent_init: "consistent RAGPipeline_init"
  by (simp add: consistent_def RAGPipeline_init_def)

text \<open>
  Claim C10: every run of ingest, query, query with or without memory, clear, capacity
  change and reset takes a consistent state to a consistent state, also through the
  exceptions these operations raise. The fresh pipeline is consistent
  (\<open>consistent_init\<close>), so a state with \<open>documents_loaded\<close> true and no vector store or
  no chain is never reached.
\<close>

theorem consistency_preserved:
  "consistent s \<Longrightarrow> consistent (run_ops env ops s)"
  by (induction ops arbitrary: s) (simp_all add: consistent_pipeline_step)

theorem consistency_preserved_witness:
  "documents_loaded (run_ops demo_services
      [Ingest [notes_file], Query ''t1'' ''What is the capital of France?'']
      RAGPipeline_init) \<and>
   vectorstore (run_ops demo_services
      [Ingest [notes_file], Query ''t1'' ''What is the capital of France?'']
      RAGPipeline_init) \<noteq> None \<and>
   rag_chain (run_ops demo_services
      [Ingest [notes_file], Query ''t1'' ''What is the capital of France?'']
      RAGPipeline_init) \<noteq> None"
proof -
  have h: "consistent (RAGPipeline_init :: unit pipeline)"
    by (simp add: consistent_def RAGPipeline_init_def)
  have i: "snd (ingest_documents demo_services [notes_file] RAGPipeline_init) =
     \<lparr>vectorstore = Some (), rag_chain = Some (RagChain ()), documents_loaded = True,
      memory = [], max_memory = 20\<rparr>"
    by (simp add: ingest_documents_def load_file_def endswith_def demo_services_def
        notes_file_def build_chain_def RAGPipeline_init_def Let_def)
  have "documents_loaded (snd (query demo_services ''t1'' ''What is the capital of France?''
        (snd (ingest_documents demo_services [notes_file] RAGPipeline_init))))"
    unfolding i by (simp add: query_def add_to_memory_def Let_def split: sum.splits)
  then have d: "documents_loaded (run_ops demo_services
      [Ingest [notes_file], Query ''t1'' ''What is the capital of France?'']
      RAGPipeline_init)"
    by simp
  have c: "consistent (run_ops demo_services
      [Ingest [notes_file], Query ''t1'' ''What is the capital of France?'']
      RAGPipeline_init)"
    using h by (rule consistency_preserved)
  from c d show ?thesis
    unfolding consistent_def by blast
qed

text \<open>The capacity stays positive along every run from the fresh pipeline.\<close>

lemma max_memory_pipeline_step:
  "1 \<le> max_memory s \<Longrightarrow> 1 \<le> max_memory (pipeline_step env op s)"
  by (cases op)
     (auto simp: ingest_documents_def build_chain_def query_def query_with_memory_context_def
        clear_memory_def set_memory_length_def reset_def add_to_memory_def Let_def
        split: prod.splits sum.splits option.splits)

lemma max_memory_run_ops:
  "1 \<le> max_memory s \<Longrightarrow> 1 \<le> max_memory (run_ops env ops s)"
  by (induction ops arbitrary: s) (simp_all add: max_memory_pipeline_step)

end
